theory Spec2Isabelle
  imports Complex_Main "HOL-Library.Sublist"
begin

section \<open>JavaScript strings\<close>

text \<open>
  A JavaScript string is a sequence of UTF-16 code units. A code unit is kept as a
  natural number, so that the line terminators and white space beyond Latin-1, which
  \<open>.\<close> and \<open>trim\<close> look at, are part of the model. \<open>js\<close> turns an ASCII
  literal into its code units.
\<close>

type_synonym code_unit = nat
type_synonym jsstring = "code_unit list"

definition js :: "string \<Rightarrow> jsstring" where
  "js cs = map of_char cs"

text \<open>ECMAScript LineTerminator: LF, CR, U+2028, U+2029.\<close>

definition isLineTerminator :: "code_unit \<Rightarrow> bool" where
  "isLineTerminator c \<longleftrightarrow> c = 10 \<or> c = 13 \<or> c = 8232 \<or> c = 8233"

text \<open>
  ECMAScript WhiteSpace: TAB, VT, FF, SP, NBSP, U+FEFF and the category Zs
  (U+1680, U+2000 to U+200A, U+202F, U+205F, U+3000).
\<close>

definition isWhiteSpace :: "code_unit \<Rightarrow> bool" where
  "isWhiteSpace c \<longleftrightarrow>
     c = 9 \<or> c = 11 \<or> c = 12 \<or> c = 32 \<or> c = 160 \<or> c = 65279 \<or> c = 5760 \<or>
     (8192 \<le> c \<and> c \<le> 8202) \<or> c = 8239 \<or> c = 8287 \<or> c = 12288"

definition isTrimmed :: "code_unit \<Rightarrow> bool" where
  "isTrimmed c \<longleftrightarrow> isWhiteSpace c \<or> isLineTerminator c"

text \<open>\<open>String.prototype.trim\<close>: white space and line terminators go from both ends.\<close>

definition trim :: "jsstring \<Rightarrow> jsstring" where
  "trim s = rev (dropWhile isTrimmed (rev (dropWhile isTrimmed s)))"

text \<open>
  \<open>x || "..."\<close> on strings: the empty string is the only falsy string.
\<close>

definition truthy :: "jsstring \<Rightarrow> bool" where
  "truthy s \<longleftrightarrow> s \<noteq> []"

definition orElse :: "jsstring \<Rightarrow> jsstring \<Rightarrow> jsstring" where
  "orElse s d = (if truthy s then s else d)"

text \<open>\<open>Number.prototype.toString\<close> of a non-negative integer: its decimal digits.\<close>

function toString :: "nat \<Rightarrow> jsstring" where
  "toString n = (if n < 10 then [48 + n] else toString (n div 10) @ [48 + n mod 10])"
  by pat_completeness auto
termination
  by (relation "measure (\<lambda>n. n)") auto

declare toString.simps [simp del]

section \<open>The feedback regular expressions\<close>

text \<open>
  The three patterns of \<open>onmessage\<close> are \<open>/\[TAG\](.*?)(?=\[|$)/i\<close> with TAG one of
  \<open>Grammar\<close>, \<open>Pronunciation\<close>, \<open>Natural Phrasing\<close>; no \<open>g\<close>, \<open>m\<close>, \<open>s\<close> or \<open>u\<close> flag.

  With the \<open>i\<close> flag and without \<open>u\<close>, two code units match when their
  canonical forms (\<open>toUpperCase\<close>, kept when it is one code unit) are equal, and a
  code unit from 128 on is never mapped to one below 128. Every character of the three
  literals is ASCII, so against them only the ASCII part of the mapping decides a match:
  a lower-case ASCII letter goes to its capital, every other code unit stays.
\<close>

definition canonicalize :: "code_unit \<Rightarrow> code_unit" where
  "canonicalize c = (if 97 \<le> c \<and> c \<le> 122 then c - 32 else c)"

definition lbracket :: code_unit where
  "lbracket = 91"

text \<open>
  The literal part of a pattern at the start of the input: the rest of the input behind
  the literal, or \<open>None\<close>.
\<close>

fun matchLiteral :: "jsstring \<Rightarrow> jsstring \<Rightarrow> jsstring option" where
  "matchLiteral [] s = Some s"
| "matchLiteral (p # ps) [] = None"
| "matchLiteral (p # ps) (c # cs) =
     (if canonicalize p = canonicalize c then matchLiteral ps cs else None)"

text \<open>
  \<open>(.*?)(?=\[|$)\<close>: the lazy group tries the lookahead first (a \<open>[\<close> next, or the
  end of the input, \<open>$\<close> without the \<open>m\<close> flag) and otherwise takes one more code
  unit, which \<open>.\<close> refuses when it is a line terminator. The result is the capture.
\<close>

fun lazyDot :: "jsstring \<Rightarrow> jsstring option" where
  "lazyDot [] = Some []"
| "lazyDot (c # cs) =
     (if c = lbracket then Some []
      else if isLineTerminator c then None
      else map_option ((#) c) (lazyDot cs))"

definition matchAt :: "jsstring \<Rightarrow> jsstring \<Rightarrow> jsstring option" where
  "matchAt tag s = (case matchLiteral tag s of None \<Rightarrow> None | Some rest \<Rightarrow> lazyDot rest)"

text \<open>
  \<open>String.prototype.match\<close> without the \<open>g\<close> flag: the start positions are tried
  from the left, the first one that matches wins; the value is capture group 1.
\<close>

fun regexMatch :: "jsstring \<Rightarrow> jsstring \<Rightarrow> jsstring option" where
  "regexMatch tag [] = matchAt tag []"
| "regexMatch tag (c # cs) =
     (case matchAt tag (c # cs) of Some cap \<Rightarrow> Some cap | None \<Rightarrow> regexMatch tag cs)"

definition grammarTag :: jsstring where
  "grammarTag = js ''[Grammar]''"

definition pronunciationTag :: jsstring where
  "pronunciationTag = js ''[Pronunciation]''"

definition naturalTag :: jsstring where
  "naturalTag = js ''[Natural Phrasing]''"

datatype Category = Grammar | Pronunciation | NaturalPhrasing | General

record CategorizedFeedback =
  category :: Category
  feedbackText :: jsstring

text \<open>
  The \<open>if / else if\<close> chain over the three matches; \<open>None\<close> when no branch is taken
  and \<open>setLatestFeedback\<close> is not called.
\<close>

definition classify :: "jsstring \<Rightarrow> CategorizedFeedback option" where
  "classify fullModelText =
     (case regexMatch grammarTag fullModelText of
        Some g \<Rightarrow> Some \<lparr>category = Grammar, feedbackText = trim g\<rparr>
      | None \<Rightarrow>
     (case regexMatch pronunciationTag fullModelText of
        Some p \<Rightarrow> Some \<lparr>category = Pronunciation, feedbackText = trim p\<rparr>
      | None \<Rightarrow>
     (case regexMatch naturalTag fullModelText of
        Some n \<Rightarrow> Some \<lparr>category = NaturalPhrasing, feedbackText = trim n\<rparr>
      | None \<Rightarrow> None)))"

section \<open>Data model\<close>

datatype SessionStatus = IDLE | CONNECTING | ACTIVE | ERROR

datatype Role = RoleUser | RoleModel

record Message =
  messageId :: jsstring
  role :: Role
  messageText :: jsstring
  timestamp :: nat

text \<open>The live-display state \<open>transcription\<close>.\<close>

record Transcription =
  user :: jsstring
  model :: jsstring

datatype js_error = TypeError | InvalidStateError | DecodeError

subsection \<open>The objects behind the refs\<close>

text \<open>
  The refs of the component hold references to Web Audio and SDK objects. Each kind of
  object lives in a list of the state, and a reference is an index into it, so that two
  references to one object see the same updates. Of an object, the model keeps what the
  component's calls read or change:
  \<^item> an \<open>AudioContext\<close>: its sample rate and whether \<open>close()\<close> was called;
  \<^item> a \<open>ScriptProcessorNode\<close>: whether it is connected;
  \<^item> an \<open>AudioBufferSourceNode\<close>: the duration of its buffer, the time given to
    \<open>start\<close> (\<open>None\<close> before \<open>start\<close>), and whether \<open>stop\<close> was called;
  \<^item> a session promise: whether \<open>close()\<close> was requested on its session.
  A time of the audio clock is the real number that the double of the code denotes.
\<close>

record AudioContext =
  sampleRate :: nat
  closed :: bool

record SourceNode =
  bufferDuration :: real
  startWhen :: "real option"
  stopCalled :: bool

record AppState =
  status :: SessionStatus
  messages :: "Message list"
  transcription :: Transcription
  latestFeedback :: "CategorizedFeedback option"
  isLanding :: bool
  isAvatarReacting :: bool
  inputAudioContextRef :: "nat option"
  outputAudioContextRef :: "nat option"
  scriptProcessorRef :: "nat option"
  nextStartTimeRef :: real
  sourcesRef :: "nat list"
  sessionPromiseRef :: "nat option"
  currentUserTextRef :: jsstring
  currentModelTextRef :: jsstring
  audioContexts :: "AudioContext list"
  processors :: "bool list"
  sourceNodes :: "SourceNode list"
  sessions :: "bool list"

text \<open>
  The first six fields are the React state of the component, the others its refs and the
  objects behind them. A state setter takes effect where it is called. The state of the
  component when it is mounted:
\<close>

definition initialState :: AppState where
  "initialState =
     \<lparr>status = IDLE, messages = [], transcription = \<lparr>user = [], model = []\<rparr>,
      latestFeedback = None, isLanding = True, isAvatarReacting = False,
      inputAudioContextRef = None, outputAudioContextRef = None,
      scriptProcessorRef = None, nextStartTimeRef = 0, sourcesRef = [],
      sessionPromiseRef = None, currentUserTextRef = [], currentModelTextRef = [],
      audioContexts = [], processors = [], sourceNodes = [], sessions = []\<rparr>"

subsection \<open>Server messages\<close>

text \<open>
  The fields of a \<open>LiveServerMessage\<close> that \<open>onmessage\<close> reads. Every level that the
  handler reaches through \<open>?.\<close> is optional; \<open>inlineData\<close> of a part stands for
  \<open>inlineData?.data\<close>. A transcription object may lack its \<open>text\<close>.
\<close>

record Part =
  inlineData :: "jsstring option"

record ServerContent =
  modelTurn :: "Part list option option"
  inputTranscription :: "jsstring option option"
  outputTranscription :: "jsstring option option"
  turnComplete :: bool
  interrupted :: bool

record LiveServerMessage =
  serverContent :: "ServerContent option"

text \<open>
  What the environment contributes while one message is handled: the reading of
  \<open>ctx.currentTime\<close>, the duration of the decoded buffer (\<open>None\<close> when decoding
  throws), and the four clock readings of \<open>Date.now()\<close> and \<open>new Date()\<close> in the
  order in which the two messages of a turn are built.
\<close>

record MessageEnv =
  currentTime :: real
  decoded :: "real option"
  userIdNow :: nat
  userDate :: nat
  modelIdNow :: nat
  modelDate :: nat

section \<open>Audio teardown\<close>

text \<open>
  A piece of code that may throw returns the exception, if any, together with the state
  it has reached: what was written before a \<open>throw\<close> stays written.
\<close>

type_synonym 'a completion = "js_error option \<times> 'a"

text \<open>
  \<open>AudioScheduledSourceNode.stop()\<close> throws \<open>InvalidStateError\<close> on a node that
  was never started; otherwise the node is stopped (a no-op when it has already
  finished).
\<close>

definition sourceStop :: "SourceNode \<Rightarrow> js_error + SourceNode" where
  "sourceStop n =
     (case startWhen n of
        None \<Rightarrow> Inl InvalidStateError
      | Some t \<Rightarrow> Inr (n\<lparr>stopCalled := True\<rparr>))"

text \<open>\<open>try { source.stop(); } catch(e) {}\<close> on the node behind a reference.\<close>

definition tryStop :: "nat \<Rightarrow> SourceNode list \<Rightarrow> SourceNode list completion" where
  "tryStop h ns =
     (if h < length ns
      then (case sourceStop (ns ! h) of
              Inl e \<Rightarrow> (None, ns)
            | Inr n \<Rightarrow> (None, ns[h := n]))
      else (None, ns))"

text \<open>
  \<open>Set.prototype.forEach\<close>: the callback runs on the members in insertion order; an
  exception that leaves the callback ends the loop and goes to the caller.
\<close>

fun forEach :: "(nat \<Rightarrow> 'a \<Rightarrow> 'a completion) \<Rightarrow> nat list \<Rightarrow> 'a \<Rightarrow> 'a completion" where
  "forEach f [] st = (None, st)"
| "forEach f (h # hs) st =
     (case f h st of
        (Some e, st') \<Rightarrow> (Some e, st')
      | (None, st') \<Rightarrow> forEach f hs st')"

text \<open>\<open>Set.prototype.add\<close> and \<open>Set.prototype.delete\<close>.\<close>

definition setAdd :: "nat \<Rightarrow> nat list \<Rightarrow> nat list" where
  "setAdd h hs = (if h \<in> set hs then hs else hs @ [h])"

definition setDelete :: "nat \<Rightarrow> nat list \<Rightarrow> nat list" where
  "setDelete h hs = removeAll h hs"

text \<open>\<open>AudioContext.close()\<close> returns a promise and does not throw.\<close>

definition closeContext :: "nat option \<Rightarrow> AudioContext list \<Rightarrow> AudioContext list" where
  "closeContext r cs =
     (case r of
        None \<Rightarrow> cs
      | Some h \<Rightarrow> if h < length cs then cs[h := (cs ! h)\<lparr>closed := True\<rparr>] else cs)"

text \<open>\<open>AudioNode.disconnect()\<close> without arguments does not throw.\<close>

definition disconnectProcessor :: "nat option \<Rightarrow> bool list \<Rightarrow> bool list" where
  "disconnectProcessor r ps =
     (case r of
        None \<Rightarrow> ps
      | Some h \<Rightarrow> if h < length ps then ps[h := False] else ps)"

definition cleanupAudio :: "AppState \<Rightarrow> AppState completion" where
  "cleanupAudio s =
     (let s1 = s\<lparr>processors := disconnectProcessor (scriptProcessorRef s) (processors s)\<rparr>;
          s2 = s1\<lparr>audioContexts := closeContext (inputAudioContextRef s1) (audioContexts s1)\<rparr>;
          s3 = s2\<lparr>audioContexts := closeContext (outputAudioContextRef s2) (audioContexts s2)\<rparr>
      in case forEach tryStop (sourcesRef s3) (sourceNodes s3) of
           (Some e, ns) \<Rightarrow> (Some e, s3\<lparr>sourceNodes := ns\<rparr>)
         | (None, ns) \<Rightarrow>
             (None, s3\<lparr>sourceNodes := ns, sourcesRef := [],
                        inputAudioContextRef := None, outputAudioContextRef := None,
                        scriptProcessorRef := None, nextStartTimeRef := 0\<rparr>))"

definition resetConversation :: "AppState \<Rightarrow> AppState" where
  "resetConversation s =
     s\<lparr>messages := [], transcription := \<lparr>user = [], model = []\<rparr>,
       latestFeedback := None, currentUserTextRef := [], currentModelTextRef := []\<rparr>"

section \<open>Double-precision numbers\<close>

text \<open>
  The scheduling clock and every time of the audio device are JavaScript numbers, that
  is IEEE 754 doubles. A finite double is kept as the real number it denotes, and
  \<open>a + b\<close> of the code is the real sum rounded to the nearest double, a tie going to
  the even significand: the magnitude is divided by the unit in the last place
  \<open>2\<^sup>e\<close>, where \<open>e\<close> is the binary exponent less 52 and at least -1074 (the
  subnormal numbers), rounded to an integer and multiplied back; the sign is kept. The
  model has no infinity: a sum beyond the largest double is outside it.
\<close>

definition pow2 :: "int \<Rightarrow> real" where
  "pow2 e = 2 powr of_int e"

definition roundHalfEven :: "real \<Rightarrow> int" where
  "roundHalfEven q =
     (let f = \<lfloor>q\<rfloor>
      in if q - of_int f < 1 / 2 then f
         else if 1 / 2 < q - of_int f then f + 1
         else if even f then f else f + 1)"

definition doubleExponent :: "real \<Rightarrow> int" where
  "doubleExponent x = max (- 1074) (\<lfloor>log 2 x\<rfloor> - 52)"

definition roundMagnitude :: "real \<Rightarrow> real" where
  "roundMagnitude x =
     (if x = 0 then 0
      else of_int (roundHalfEven (x / pow2 (doubleExponent x))) * pow2 (doubleExponent x))"

definition doubleRound :: "real \<Rightarrow> real" where
  "doubleRound x = (if x < 0 then - roundMagnitude (- x) else roundMagnitude x)"

definition doubleAdd :: "real \<Rightarrow> real \<Rightarrow> real" where
  "doubleAdd a b = doubleRound (a + b)"



section \<open>The message handler\<close>

text \<open>
  \<open>message.serverContent?.modelTurn?.parts[0]?.inlineData?.data\<close>: there is no
  \<open>?.\<close> behind \<open>parts\<close>, so a model turn without \<open>parts\<close> throws a
  \<open>TypeError\<close>; an empty \<open>parts\<close> gives \<open>undefined\<close>.
\<close>

definition audioDataOf :: "LiveServerMessage \<Rightarrow> js_error + jsstring option" where
  "audioDataOf m =
     (case serverContent m of
        None \<Rightarrow> Inr None
      | Some sc \<Rightarrow>
          (case modelTurn sc of
             None \<Rightarrow> Inr None
           | Some None \<Rightarrow> Inl TypeError
           | Some (Some []) \<Rightarrow> Inr None
           | Some (Some (p # ps)) \<Rightarrow> Inr (inlineData p)))"

text \<open>The statement before \<open>await decodeAudioData\<close>: the clock is lifted to the device time.\<close>

definition scheduleBegin :: "real \<Rightarrow> AppState \<Rightarrow> AppState" where
  "scheduleBegin now s = s\<lparr>nextStartTimeRef := max (nextStartTimeRef s) now\<rparr>"

text \<open>
  The statements behind the \<open>await\<close>, for a decoded buffer of duration \<open>d\<close>: a new
  source node is started at the clock, \<open>nextStartTimeRef.current += buffer.duration\<close>
  sets the clock to the double nearest to the sum, and the node joins the tracked set.
\<close>

definition scheduleResume :: "real \<Rightarrow> AppState \<Rightarrow> AppState" where
  "scheduleResume d s =
     (let h = length (sourceNodes s);
          source = \<lparr>bufferDuration = d, startWhen = Some (nextStartTimeRef s),
                    stopCalled = False\<rparr>
      in s\<lparr>sourceNodes := sourceNodes s @ [source],
           nextStartTimeRef := doubleAdd (nextStartTimeRef s) d,
           sourcesRef := setAdd h (sourcesRef s)\<rparr>)"

text \<open>The listener of \<open>ended\<close> on a source node.\<close>

definition sourceEnded :: "nat \<Rightarrow> AppState \<Rightarrow> AppState" where
  "sourceEnded h s = s\<lparr>sourcesRef := setDelete h (sourcesRef s)\<rparr>"

definition handleAudio :: "MessageEnv \<Rightarrow> LiveServerMessage \<Rightarrow> AppState \<Rightarrow> AppState completion" where
  "handleAudio env m s =
     (case audioDataOf m of
        Inl e \<Rightarrow> (Some e, s)
      | Inr None \<Rightarrow> (None, s)
      | Inr (Some audioData) \<Rightarrow>
          if truthy audioData \<and> outputAudioContextRef s \<noteq> None
          then (let s1 = scheduleBegin (currentTime env) s
                in case decoded env of
                     None \<Rightarrow> (Some DecodeError, s1)
                   | Some d \<Rightarrow> (None, scheduleResume d s1))
          else (None, s))"

text \<open>\<open>acc += text\<close>: an absent \<open>text\<close> is appended as the string \<open>undefined\<close>.\<close>

definition deltaText :: "jsstring option \<Rightarrow> jsstring" where
  "deltaText t = (case t of None \<Rightarrow> js ''undefined'' | Some x \<Rightarrow> x)"

definition transcriptionOf :: "(ServerContent \<Rightarrow> jsstring option option) \<Rightarrow> LiveServerMessage \<Rightarrow> jsstring option option" where
  "transcriptionOf field m = (case serverContent m of None \<Rightarrow> None | Some sc \<Rightarrow> field sc)"

definition handleInputTranscription :: "LiveServerMessage \<Rightarrow> AppState \<Rightarrow> AppState" where
  "handleInputTranscription m s =
     (case transcriptionOf inputTranscription m of
        None \<Rightarrow> s
      | Some t \<Rightarrow>
          (let acc = currentUserTextRef s @ deltaText t
           in s\<lparr>currentUserTextRef := acc,
                transcription := (transcription s)\<lparr>user := acc\<rparr>\<rparr>))"

definition handleOutputTranscription :: "LiveServerMessage \<Rightarrow> AppState \<Rightarrow> AppState" where
  "handleOutputTranscription m s =
     (case transcriptionOf outputTranscription m of
        None \<Rightarrow> s
      | Some t \<Rightarrow>
          (let acc = currentModelTextRef s @ deltaText t;
               s1 = s\<lparr>currentModelTextRef := acc,
                      transcription := (transcription s)\<lparr>model := acc\<rparr>\<rparr>
           in case classify acc of
                None \<Rightarrow> s1
              | Some fb \<Rightarrow> s1\<lparr>latestFeedback := Some fb\<rparr>))"

definition flagOf :: "(ServerContent \<Rightarrow> bool) \<Rightarrow> LiveServerMessage \<Rightarrow> bool" where
  "flagOf field m = (case serverContent m of None \<Rightarrow> False | Some sc \<Rightarrow> field sc)"

definition placeholder :: jsstring where
  "placeholder = js ''...''"

text \<open>The body of \<open>if (message.serverContent?.turnComplete)\<close>.\<close>

definition turnCompleteBody :: "MessageEnv \<Rightarrow> AppState \<Rightarrow> AppState" where
  "turnCompleteBody env s =
     (let uText = currentUserTextRef s;
          mText = currentModelTextRef s;
          s1 = (if truthy uText \<or> truthy mText
                then s\<lparr>messages := messages s @
                       [\<lparr>messageId = toString (userIdNow env) @ js ''-user'', role = RoleUser,
                         messageText = orElse uText placeholder, timestamp = userDate env\<rparr>,
                        \<lparr>messageId = toString (modelIdNow env) @ js ''-model'', role = RoleModel,
                         messageText = orElse mText placeholder, timestamp = modelDate env\<rparr>]\<rparr>
                else s)
      in s1\<lparr>currentUserTextRef := [], currentModelTextRef := [],
            transcription := \<lparr>user = [], model = []\<rparr>\<rparr>)"

definition handleTurnComplete :: "MessageEnv \<Rightarrow> LiveServerMessage \<Rightarrow> AppState \<Rightarrow> AppState" where
  "handleTurnComplete env m s = (if flagOf turnComplete m then turnCompleteBody env s else s)"

text \<open>The body of \<open>if (message.serverContent?.interrupted)\<close>.\<close>

definition interruptedBody :: "AppState \<Rightarrow> AppState completion" where
  "interruptedBody s =
     (case forEach tryStop (sourcesRef s) (sourceNodes s) of
        (Some e, ns) \<Rightarrow> (Some e, s\<lparr>sourceNodes := ns\<rparr>)
      | (None, ns) \<Rightarrow> (None, s\<lparr>sourceNodes := ns, sourcesRef := [], nextStartTimeRef := 0\<rparr>))"

definition handleInterrupted :: "LiveServerMessage \<Rightarrow> AppState \<Rightarrow> AppState completion" where
  "handleInterrupted m s = (if flagOf interrupted m then interruptedBody s else (None, s))"

text \<open>
  \<open>onmessage\<close>, run from its first statement to its last. The handler waits at
  \<open>await decodeAudioData\<close>; what other handlers may do meanwhile to the scheduling
  is the subject of the steps \<open>scheduleBegin\<close> and \<open>scheduleResume\<close> taken one
  by one further down.
\<close>

definition onmessage :: "MessageEnv \<Rightarrow> LiveServerMessage \<Rightarrow> AppState \<Rightarrow> AppState completion" where
  "onmessage env m s =
     (case handleAudio env m s of
        (Some e, s1) \<Rightarrow> (Some e, s1)
      | (None, s1) \<Rightarrow>
          handleInterrupted m
            (handleTurnComplete env m
              (handleOutputTranscription m
                (handleInputTranscription m s1))))"

section \<open>Session control\<close>

text \<open>
  What may throw between the first statement of \<open>startSession\<close> and its \<open>await\<close>:
  the SDK constructor and the two \<open>AudioContext\<close> constructors.
\<close>

record StartEnv =
  genAIOk :: bool
  inputContextOk :: bool
  outputContextOk :: bool

text \<open>The \<open>catch\<close> block of \<open>startSession\<close>.\<close>

definition startFailed :: "AppState \<Rightarrow> AppState completion" where
  "startFailed s = cleanupAudio (s\<lparr>status := ERROR\<rparr>)"

definition newContext :: "nat \<Rightarrow> AudioContext" where
  "newContext rate = \<lparr>sampleRate = rate, closed = False\<rparr>"

text \<open>\<open>startSession\<close> up to \<open>await navigator.mediaDevices.getUserMedia\<close>.\<close>

definition startSession :: "StartEnv \<Rightarrow> AppState \<Rightarrow> AppState completion" where
  "startSession env s =
     (let s1 = s\<lparr>isLanding := False, status := CONNECTING\<rparr>
      in if \<not> genAIOk env then startFailed s1
         else if \<not> inputContextOk env then startFailed s1
         else (let s2 = s1\<lparr>audioContexts := audioContexts s1 @ [newContext 16000],
                           inputAudioContextRef := Some (length (audioContexts s1))\<rparr>
               in if \<not> outputContextOk env then startFailed s2
                  else (None, s2\<lparr>audioContexts := audioContexts s2 @ [newContext 24000],
                                 outputAudioContextRef := Some (length (audioContexts s2))\<rparr>)))"

text \<open>
  \<open>startSession\<close> behind the \<open>await\<close>: the microphone was granted or not, and
  \<open>ai.live.connect\<close> returned its promise or threw.
\<close>

definition startSessionResume :: "bool \<Rightarrow> bool \<Rightarrow> AppState \<Rightarrow> AppState completion" where
  "startSessionResume granted connectOk s =
     (if granted \<and> connectOk
      then (None, s\<lparr>sessions := sessions s @ [False],
                    sessionPromiseRef := Some (length (sessions s))\<rparr>)
      else startFailed s)"

text \<open>The callbacks \<open>onopen\<close>, \<open>onerror\<close> and \<open>onclose\<close>.\<close>

definition onopen :: "AppState \<Rightarrow> AppState completion" where
  "onopen s =
     (let s1 = s\<lparr>status := ACTIVE\<rparr>
      in case inputAudioContextRef s1 of
           None \<Rightarrow> (Some TypeError, s1)
         | Some c \<Rightarrow>
             (None, s1\<lparr>processors := processors s1 @ [True],
                       scriptProcessorRef := Some (length (processors s1))\<rparr>))"

definition onerror :: "AppState \<Rightarrow> AppState completion" where
  "onerror s = cleanupAudio (s\<lparr>status := ERROR\<rparr>)"

definition onclose :: "AppState \<Rightarrow> AppState completion" where
  "onclose s = cleanupAudio (s\<lparr>status := IDLE\<rparr>)"

text \<open>\<open>promise.then(session => session.close())\<close> does not throw where it is called.\<close>

definition requestClose :: "nat \<Rightarrow> bool list \<Rightarrow> bool list" where
  "requestClose h ps = (if h < length ps then ps[h := True] else ps)"

definition stopSession :: "AppState \<Rightarrow> AppState completion" where
  "stopSession s =
     (let s1 = (case sessionPromiseRef s of
                  None \<Rightarrow> s
                | Some p \<Rightarrow> s\<lparr>sessions := requestClose p (sessions s),
                              sessionPromiseRef := None\<rparr>)
      in case cleanupAudio s1 of
           (Some e, s2) \<Rightarrow> (Some e, s2)
         | (None, s2) \<Rightarrow> (None, s2\<lparr>status := IDLE, isLanding := True\<rparr>))"

text \<open>
  The view: the component returns the landing page, whose button calls
  \<open>startSession\<close>, while \<open>isLanding\<close> holds, and otherwise the lesson page, whose
  buttons call \<open>resetConversation\<close> and \<open>stopSession\<close>. The start button is on
  the landing page only.
\<close>

definition startButtonShown :: "AppState \<Rightarrow> bool" where
  "startButtonShown s \<longleftrightarrow> isLanding s"

section \<open>PCM encoding\<close>






section \<open>Properties of the tracked set and of the scheduled nodes\<close>

text \<open>Every tracked reference points to a source node, and that node has been started.\<close>

definition tracked :: "AppState \<Rightarrow> bool" where
  "tracked s \<longleftrightarrow>
     list_all (\<lambda>h. h < length (sourceNodes s) \<and> startWhen (sourceNodes s ! h) \<noteq> None) (sourcesRef s)"





section \<open>Marker occurrences\<close>

text \<open>
  A text contains a tag marker, in any letter case, when the marker is a contiguous part
  of the text once both are brought to canonical case.
\<close>

definition containsTag :: "jsstring \<Rightarrow> jsstring \<Rightarrow> bool" where
  "containsTag tag s \<longleftrightarrow> sublist (map canonicalize tag) (map canonicalize s)"




section \<open>The scheduling steps around the await\<close>

text \<open>The statements of \<open>onmessage\<close> behind the audio part.\<close>

definition afterAudio :: "MessageEnv \<Rightarrow> LiveServerMessage \<Rightarrow> AppState \<Rightarrow> AppState completion" where
  "afterAudio env m s =
     handleInterrupted m
       (handleTurnComplete env m
         (handleOutputTranscription m
           (handleInputTranscription m s)))"

text \<open>
  \<open>onmessage\<close> is an \<open>async\<close> function: between \<open>scheduleBegin\<close> and
  \<open>scheduleResume\<close> of one message it waits for the decoder, and the steps of other
  messages may run meanwhile. A sequence of steps stands for any such interleaving:
  \<^item> \<open>Begin now\<close> is the statement before the \<open>await\<close> with the device clock at
    \<open>now\<close>;
  \<^item> \<open>Resume d c\<close> are the statements behind it for a buffer of duration \<open>d\<close>, run
    when the device clock shows \<open>c\<close>, a reading that the code does not take;
  \<^item> \<open>Rest env m\<close> are the statements of the handler of \<open>m\<close> behind its audio part;
  \<^item> \<open>Ended h\<close> is the \<open>ended\<close> event of the source node \<open>h\<close>.
\<close>

datatype ScheduleStep =
    Begin real
  | Resume real real
  | Rest MessageEnv LiveServerMessage
  | Ended nat

fun scheduleSteps :: "ScheduleStep list \<Rightarrow> AppState \<Rightarrow> AppState" where
  "scheduleSteps [] s = s"
| "scheduleSteps (Begin now # es) s = scheduleSteps es (scheduleBegin now s)"
| "scheduleSteps (Resume d c # es) s = scheduleSteps es (scheduleResume d s)"
| "scheduleSteps (Rest env m # es) s = scheduleSteps es (snd (afterAudio env m s))"
| "scheduleSteps (Ended h # es) s = scheduleSteps es (sourceEnded h s)"




section \<open>Example inputs\<close>

definition startOk :: StartEnv where
  "startOk = \<lparr>genAIOk = True, inputContextOk = True, outputContextOk = True\<rparr>"

definition activeState :: AppState where
  "activeState = snd (onopen (snd (startSessionResume True True (snd (startSession startOk initialState)))))"

text \<open>
  Start, stop while the request for the microphone is pending, the grant, and the
  \<open>onopen\<close> of the connection that the resumed \<open>startSession\<close> still opens.
\<close>

definition stoppedWhilePending :: AppState where
  "stoppedWhilePending =
     snd (onopen (snd (startSessionResume True True
       (snd (stopSession (snd (startSession startOk initialState)))))))"

definition messageEnv :: "real \<Rightarrow> real \<Rightarrow> MessageEnv" where
  "messageEnv now d =
     \<lparr>currentTime = now, decoded = Some d, userIdNow = 1700000000000,
      userDate = 1700000000000, modelIdNow = 1700000000001, modelDate = 1700000000001\<rparr>"

definition emptyContent :: ServerContent where
  "emptyContent =
     \<lparr>modelTurn = None, inputTranscription = None, outputTranscription = None,
      turnComplete = False, interrupted = False\<rparr>"

definition audioMessage :: LiveServerMessage where
  "audioMessage =
     \<lparr>serverContent = Some (emptyContent\<lparr>modelTurn := Some (Some [\<lparr>inlineData = Some (js ''AAAA'')\<rparr>])\<rparr>)\<rparr>"

definition turnCompleteMessage :: LiveServerMessage where
  "turnCompleteMessage = \<lparr>serverContent = Some (emptyContent\<lparr>turnComplete := True\<rparr>)\<rparr>"

definition interruptedMessage :: LiveServerMessage where
  "interruptedMessage = \<lparr>serverContent = Some (emptyContent\<lparr>interrupted := True\<rparr>)\<rparr>"

text \<open>An interruption signal in a message that carries audio data as well.\<close>

definition interruptedAudioMessage :: LiveServerMessage where
  "interruptedAudioMessage =
     \<lparr>serverContent = Some (emptyContent\<lparr>interrupted := True,
        modelTurn := Some (Some [\<lparr>inlineData = Some (js ''AAAA'')\<rparr>])\<rparr>)\<rparr>"

text \<open>An interruption signal in a message whose model turn has no \<open>parts\<close>.\<close>

definition interruptedBrokenMessage :: LiveServerMessage where
  "interruptedBrokenMessage =
     \<lparr>serverContent = Some (emptyContent\<lparr>interrupted := True, modelTurn := Some None\<rparr>)\<rparr>"

definition outputMessage :: "jsstring \<Rightarrow> LiveServerMessage" where
  "outputMessage t = \<lparr>serverContent = Some (emptyContent\<lparr>outputTranscription := Some (Some t)\<rparr>)\<rparr>"

definition helloState :: AppState where
  "helloState =
     activeState\<lparr>currentUserTextRef := js ''Hello'',
                 currentModelTextRef := js ''[Grammar] Use the here.''\<rparr>"

text \<open>Two buffers scheduled one after the other and still tracked.\<close>

definition playingState :: AppState where
  "playingState =
     snd (onmessage (messageEnv (1 / 4) (1 / 2)) audioMessage
       (snd (onmessage (messageEnv 0 (3 / 2)) audioMessage activeState)))"






section \<open>Teardown never throws\<close>

lemma tryStop_ok: "fst (tryStop h ns) = None"
  by (simp add: tryStop_def split: sum.splits)

lemma tryStop_length: "length (snd (tryStop h ns)) = length ns"
  by (simp add: tryStop_def split: sum.splits)

lemma tryStop_nth:
  "k < length ns \<Longrightarrow>
   snd (tryStop h ns) ! k =
     (if k = h \<and> startWhen (ns ! k) \<noteq> None then (ns ! k)\<lparr>stopCalled := True\<rparr> else ns ! k)"
  by (auto simp: tryStop_def sourceStop_def split: sum.splits option.splits)

lemma forEach_tryStop_ok: "fst (forEach tryStop hs ns) = None"
proof (induction hs arbitrary: ns)
  case Nil
  show ?case by simp
next
  case (Cons h hs)
  obtain e ns' where t: "tryStop h ns = (e, ns')" by (cases "tryStop h ns")
  with tryStop_ok [of h ns] have "e = None" by simp
  with t Cons show ?case by simp
qed

lemma forEach_tryStop_length: "length (snd (forEach tryStop hs ns)) = length ns"
proof (induction hs arbitrary: ns)
  case Nil
  show ?case by simp
next
  case (Cons h hs)
  obtain e ns' where t: "tryStop h ns = (e, ns')" by (cases "tryStop h ns")
  with tryStop_ok [of h ns] have e: "e = None" by simp
  from t tryStop_length [of h ns] have "length ns' = length ns" by simp
  with t e Cons [of ns'] show ?case by simp
qed

text \<open>Every started node behind a tracked reference is stopped; no other node changes.\<close>

lemma forEach_tryStop_nth:
  "k < length ns \<Longrightarrow>
   snd (forEach tryStop hs ns) ! k =
     (if k \<in> set hs \<and> startWhen (ns ! k) \<noteq> None then (ns ! k)\<lparr>stopCalled := True\<rparr> else ns ! k)"
proof (induction hs arbitrary: ns)
  case Nil
  show ?case by simp
next
  case (Cons h hs)
  obtain e ns' where t: "tryStop h ns = (e, ns')" by (cases "tryStop h ns")
  with tryStop_ok [of h ns] have e: "e = None" by simp
  from t tryStop_length [of h ns] have len: "length ns' = length ns" by simp
  from t tryStop_nth [of k ns h] Cons.prems
  have nth: "ns' ! k = (if k = h \<and> startWhen (ns ! k) \<noteq> None then (ns ! k)\<lparr>stopCalled := True\<rparr> else ns ! k)"
    by simp
  from Cons.prems len have "k < length ns'" by simp
  from Cons.IH [OF this] t e nth show ?case by auto
qed

lemma forEach_tryStop_None: "\<exists>ns'. forEach tryStop hs ns = (None, ns')"
  using forEach_tryStop_ok [of hs ns] by (cases "forEach tryStop hs ns") simp

lemma interruptedBody_eq:
  "interruptedBody s =
     (None, s\<lparr>sourceNodes := snd (forEach tryStop (sourcesRef s) (sourceNodes s)),
              sourcesRef := [], nextStartTimeRef := 0\<rparr>)"
proof -
  obtain ns' where "forEach tryStop (sourcesRef s) (sourceNodes s) = (None, ns')"
    using forEach_tryStop_None by blast
  then show ?thesis by (simp add: interruptedBody_def)
qed

lemma cleanupAudio_eq:
  "cleanupAudio s =
     (None, s\<lparr>processors := disconnectProcessor (scriptProcessorRef s) (processors s),
              audioContexts := closeContext (outputAudioContextRef s)
                                 (closeContext (inputAudioContextRef s) (audioContexts s)),
              sourceNodes := snd (forEach tryStop (sourcesRef s) (sourceNodes s)),
              sourcesRef := [], inputAudioContextRef := None, outputAudioContextRef := None,
              scriptProcessorRef := None, nextStartTimeRef := 0\<rparr>)"
proof -
  obtain ns' where "forEach tryStop (sourcesRef s) (sourceNodes s) = (None, ns')"
    using forEach_tryStop_None by blast
  then show ?thesis by (simp add: cleanupAudio_def Let_def)
qed

lemma stopSession_eq: "stopSession s = (None, snd (stopSession s))"
  by (simp add: stopSession_def cleanupAudio_eq Let_def split: option.splits)

lemma stopSession_fields:
  "status (snd (stopSession s)) = IDLE \<and> isLanding (snd (stopSession s)) \<and>
   sessionPromiseRef (snd (stopSession s)) = None \<and>
   inputAudioContextRef (snd (stopSession s)) = None \<and>
   outputAudioContextRef (snd (stopSession s)) = None \<and>
   scriptProcessorRef (snd (stopSession s)) = None \<and>
   sourcesRef (snd (stopSession s)) = [] \<and> nextStartTimeRef (snd (stopSession s)) = 0"
  by (simp add: stopSession_def cleanupAudio_eq Let_def split: option.splits)

text \<open>On a state that holds no resource and is idle, \<open>stopSession\<close> changes nothing.\<close>

lemma stopSession_idle_fixpoint:
  assumes "status s = IDLE" "isLanding s" "sessionPromiseRef s = None"
    "inputAudioContextRef s = None" "outputAudioContextRef s = None"
    "scriptProcessorRef s = None" "sourcesRef s = []" "nextStartTimeRef s = 0"
  shows "stopSession s = (None, s)"
  using assms
  by (simp add: stopSession_def cleanupAudio_eq Let_def closeContext_def disconnectProcessor_def)

text \<open>
  C6. From every state, whatever the refs hold (nothing, a part of the resources, all of
  them, or resources already released), \<open>cleanupAudio\<close> completes without an
  exception, and so does \<open>stopSession\<close>; a second \<open>stopSession\<close> right after the
  first completes without an exception too, changes nothing, and the status is \<open>IDLE\<close>
  after each of the two calls.
\<close>

theorem C6_stop_twice:
  "fst (cleanupAudio s) = None \<and>
   fst (stopSession s) = None \<and>
   fst (stopSession (snd (stopSession s))) = None \<and>
   status (snd (stopSession s)) = IDLE \<and>
   status (snd (stopSession (snd (stopSession s)))) = IDLE \<and>
   snd (stopSession (snd (stopSession s))) = snd (stopSession s)"
proof -
  have again: "stopSession (snd (stopSession s)) = (None, snd (stopSession s))"
    using stopSession_fields [of s] by (intro stopSession_idle_fixpoint) simp_all
  have "fst (stopSession s) = None" using stopSession_eq [of s] by (metis fst_conv)
  with again stopSession_fields [of s] show ?thesis by (simp add: cleanupAudio_eq)
qed

section \<open>Interruption\<close>

text \<open>
  C9. The interruption branch of \<open>onmessage\<close> leaves the two transcript accumulators,
  the published transcription, the conversation log, the latest feedback and the session
  status as they were: the state after it is the state before it with new values for the
  tracked set, the scheduling clock and the source nodes that were stopped, and nothing
  else.
\<close>

theorem C9_interrupt_frame:
  "currentUserTextRef (snd (handleInterrupted m s)) = currentUserTextRef s \<and>
   currentModelTextRef (snd (handleInterrupted m s)) = currentModelTextRef s \<and>
   transcription (snd (handleInterrupted m s)) = transcription s \<and>
   messages (snd (handleInterrupted m s)) = messages s \<and>
   latestFeedback (snd (handleInterrupted m s)) = latestFeedback s \<and>
   status (snd (handleInterrupted m s)) = status s \<and>
   snd (handleInterrupted m s) =
     s\<lparr>sourceNodes := sourceNodes (snd (handleInterrupted m s)),
       sourcesRef := sourcesRef (snd (handleInterrupted m s)),
       nextStartTimeRef := nextStartTimeRef (snd (handleInterrupted m s))\<rparr>"
  by (simp add: handleInterrupted_def interruptedBody_eq)

lemma handleInterrupted_frame:
  "currentUserTextRef (snd (handleInterrupted m s)) = currentUserTextRef s \<and>
   currentModelTextRef (snd (handleInterrupted m s)) = currentModelTextRef s \<and>
   transcription (snd (handleInterrupted m s)) = transcription s \<and>
   messages (snd (handleInterrupted m s)) = messages s"
  by (simp add: handleInterrupted_def interruptedBody_eq)

lemma onmessage_snd:
  "snd (onmessage env m s) =
     (case fst (handleAudio env m s) of
        Some e \<Rightarrow> snd (handleAudio env m s)
      | None \<Rightarrow> snd (handleInterrupted m (handleTurnComplete env m
          (handleOutputTranscription m (handleInputTranscription m (snd (handleAudio env m s)))))))"
  by (cases "handleAudio env m s") (simp add: onmessage_def split: option.splits)

subsection \<open>The tracked set holds started nodes\<close>

lemma tracked_initialState: "tracked initialState"
  by (simp add: tracked_def initialState_def)

lemma tracked_scheduleBegin: "tracked s \<Longrightarrow> tracked (scheduleBegin now s)"
  by (simp add: tracked_def scheduleBegin_def)

lemma tracked_scheduleResume: "tracked s \<Longrightarrow> tracked (scheduleResume d s)"
  by (auto simp: tracked_def scheduleResume_def setAdd_def Let_def list_all_iff nth_append)

lemma tracked_sourceEnded: "tracked s \<Longrightarrow> tracked (sourceEnded h s)"
  by (auto simp: tracked_def sourceEnded_def setDelete_def list_all_iff)

lemma tracked_handleAudio: "tracked s \<Longrightarrow> tracked (snd (handleAudio env m s))"
  by (auto simp: handleAudio_def Let_def tracked_scheduleBegin tracked_scheduleResume
           split: sum.splits option.splits)

lemma tracked_handleInputTranscription: "tracked s \<Longrightarrow> tracked (handleInputTranscription m s)"
  by (simp add: tracked_def handleInputTranscription_def Let_def split: option.splits)

lemma tracked_handleOutputTranscription: "tracked s \<Longrightarrow> tracked (handleOutputTranscription m s)"
  by (simp add: tracked_def handleOutputTranscription_def Let_def split: option.splits)

lemma tracked_handleTurnComplete: "tracked s \<Longrightarrow> tracked (handleTurnComplete env m s)"
  by (simp add: tracked_def handleTurnComplete_def turnCompleteBody_def Let_def)

lemma tracked_handleInterrupted: "tracked s \<Longrightarrow> tracked (snd (handleInterrupted m s))"
  by (simp add: tracked_def handleInterrupted_def interruptedBody_eq)

lemma tracked_onmessage: "tracked s \<Longrightarrow> tracked (snd (onmessage env m s))"
proof -
  assume t: "tracked s"
  obtain e s1 where a: "handleAudio env m s = (e, s1)" by (cases "handleAudio env m s")
  with tracked_handleAudio [OF t, of env m] have t1: "tracked s1" by simp
  show ?thesis
  proof (cases e)
    case None
    with a t1 show ?thesis
      by (simp add: onmessage_def tracked_handleInterrupted tracked_handleTurnComplete
            tracked_handleOutputTranscription tracked_handleInputTranscription)
  next
    case (Some err)
    with a t1 show ?thesis by (simp add: onmessage_def)
  qed
qed

lemmas fixture_defs = messageEnv_def emptyContent_def audioMessage_def turnCompleteMessage_def
  interruptedBrokenMessage_def
  interruptedMessage_def interruptedAudioMessage_def outputMessage_def

lemma activeState_eq:
  "activeState = initialState\<lparr>status := ACTIVE, isLanding := False,
      inputAudioContextRef := Some 0, outputAudioContextRef := Some 1,
      scriptProcessorRef := Some 0, sessionPromiseRef := Some 0,
      audioContexts := [newContext 16000, newContext 24000], processors := [True],
      sessions := [False]\<rparr>"
  by (simp add: activeState_def onopen_def startSessionResume_def startSession_def startOk_def
        initialState_def Let_def)

lemma tracked_activeState: "tracked activeState"
  by (simp add: tracked_def activeState_eq initialState_def)

section \<open>Turn completion\<close>

lemma toString_example: "toString 1700000000000 = js ''1700000000000'' \<and>
  toString 1700000000001 = js ''1700000000001''"
  by (simp add: toString.simps js_def)

text \<open>
  C3. When a message carries the turn-complete signal and one of the two accumulators is
  not empty, exactly two messages are appended to the log: first the one of role user
  with the text of the user accumulator, then the one of role model with the text of the
  model accumulator, each with the placeholder \<open>...\<close> in place of an empty text. When
  both accumulators are empty the log stays as it is. In both cases the two accumulators
  and the published transcription are empty afterwards. The accumulators meant are those
  at the moment the branch runs, after the transcription deltas of the same message; the
  interruption branch that follows in \<open>onmessage\<close> changes none of this.
\<close>

theorem C3_turn_complete:
  "flagOf turnComplete m \<Longrightarrow>
   (currentUserTextRef s \<noteq> [] \<or> currentModelTextRef s \<noteq> [] \<longrightarrow>
      messages (handleTurnComplete env m s) = messages s @
        [\<lparr>messageId = toString (userIdNow env) @ js ''-user'', role = RoleUser,
          messageText = (if currentUserTextRef s = [] then js ''...'' else currentUserTextRef s),
          timestamp = userDate env\<rparr>,
         \<lparr>messageId = toString (modelIdNow env) @ js ''-model'', role = RoleModel,
          messageText = (if currentModelTextRef s = [] then js ''...'' else currentModelTextRef s),
          timestamp = modelDate env\<rparr>]) \<and>
   (currentUserTextRef s = [] \<and> currentModelTextRef s = [] \<longrightarrow>
      messages (handleTurnComplete env m s) = messages s) \<and>
   currentUserTextRef (handleTurnComplete env m s) = [] \<and>
   currentModelTextRef (handleTurnComplete env m s) = [] \<and>
   transcription (handleTurnComplete env m s) = \<lparr>user = [], model = []\<rparr> \<and>
   (fst (handleAudio env m s0) = None \<and>
    s = handleOutputTranscription m (handleInputTranscription m (snd (handleAudio env m s0))) \<longrightarrow>
      messages (snd (onmessage env m s0)) = messages (handleTurnComplete env m s) \<and>
      currentUserTextRef (snd (onmessage env m s0)) = [] \<and>
      currentModelTextRef (snd (onmessage env m s0)) = [] \<and>
      transcription (snd (onmessage env m s0)) = \<lparr>user = [], model = []\<rparr>)"
proof -
  assume f: "flagOf turnComplete m"
  have body: "handleTurnComplete env m s = turnCompleteBody env s"
    using f by (simp add: handleTurnComplete_def)
  have 1: "currentUserTextRef s \<noteq> [] \<or> currentModelTextRef s \<noteq> [] \<longrightarrow>
      messages (turnCompleteBody env s) = messages s @
        [\<lparr>messageId = toString (userIdNow env) @ js ''-user'', role = RoleUser,
          messageText = (if currentUserTextRef s = [] then js ''...'' else currentUserTextRef s),
          timestamp = userDate env\<rparr>,
         \<lparr>messageId = toString (modelIdNow env) @ js ''-model'', role = RoleModel,
          messageText = (if currentModelTextRef s = [] then js ''...'' else currentModelTextRef s),
          timestamp = modelDate env\<rparr>]"
    by (simp add: turnCompleteBody_def Let_def truthy_def orElse_def placeholder_def)
  have 2: "currentUserTextRef s = [] \<and> currentModelTextRef s = [] \<longrightarrow>
      messages (turnCompleteBody env s) = messages s"
    by (simp add: turnCompleteBody_def Let_def truthy_def)
  have 3: "currentUserTextRef (turnCompleteBody env s) = [] \<and>
      currentModelTextRef (turnCompleteBody env s) = [] \<and>
      transcription (turnCompleteBody env s) = \<lparr>user = [], model = []\<rparr>"
    by (simp add: turnCompleteBody_def Let_def)
  have 4: "fst (handleAudio env m s0) = None \<and>
    s = handleOutputTranscription m (handleInputTranscription m (snd (handleAudio env m s0))) \<longrightarrow>
      snd (onmessage env m s0) = snd (handleInterrupted m (turnCompleteBody env s))"
    using body by (cases "handleAudio env m s0") (auto simp: onmessage_def)
  have 5: "fst (handleAudio env m s0) = None \<and>
    s = handleOutputTranscription m (handleInputTranscription m (snd (handleAudio env m s0))) \<longrightarrow>
      messages (snd (onmessage env m s0)) = messages (turnCompleteBody env s) \<and>
      currentUserTextRef (snd (onmessage env m s0)) = [] \<and>
      currentModelTextRef (snd (onmessage env m s0)) = [] \<and>
      transcription (snd (onmessage env m s0)) = \<lparr>user = [], model = []\<rparr>"
  proof
    assume a: "fst (handleAudio env m s0) = None \<and>
      s = handleOutputTranscription m (handleInputTranscription m (snd (handleAudio env m s0)))"
    with 4 have "snd (onmessage env m s0) = snd (handleInterrupted m (turnCompleteBody env s))"
      by blast
    with 3 handleInterrupted_frame [of m "turnCompleteBody env s"]
    show "messages (snd (onmessage env m s0)) = messages (turnCompleteBody env s) \<and>
      currentUserTextRef (snd (onmessage env m s0)) = [] \<and>
      currentModelTextRef (snd (onmessage env m s0)) = [] \<and>
      transcription (snd (onmessage env m s0)) = \<lparr>user = [], model = []\<rparr>"
      by simp
  qed
  show ?thesis
    unfolding body using 1 2 3 5 by blast
qed

theorem C3_turn_complete_witness:
  "flagOf turnComplete turnCompleteMessage \<and>
   messages (handleTurnComplete (messageEnv 0 0) turnCompleteMessage helloState) =
     [\<lparr>messageId = js ''1700000000000-user'', role = RoleUser,
       messageText = js ''Hello'', timestamp = 1700000000000\<rparr>,
      \<lparr>messageId = js ''1700000000001-model'', role = RoleModel,
       messageText = js ''[Grammar] Use the here.'', timestamp = 1700000000001\<rparr>] \<and>
   currentUserTextRef (handleTurnComplete (messageEnv 0 0) turnCompleteMessage helloState) = [] \<and>
   currentModelTextRef (handleTurnComplete (messageEnv 0 0) turnCompleteMessage helloState) = [] \<and>
   messages (handleTurnComplete (messageEnv 0 0) turnCompleteMessage activeState) = []"
proof -
  have f: "flagOf turnComplete turnCompleteMessage"
    by (simp add: flagOf_def fixture_defs)
  have h: "currentUserTextRef helloState = js ''Hello'' \<and>
     currentModelTextRef helloState = js ''[Grammar] Use the here.'' \<and> messages helloState = []"
    by (simp add: helloState_def activeState_eq initialState_def)
  have a: "currentUserTextRef activeState = [] \<and> currentModelTextRef activeState = [] \<and>
     messages activeState = []"
    by (simp add: activeState_eq initialState_def)
  have e: "userIdNow (messageEnv 0 0) = 1700000000000 \<and> userDate (messageEnv 0 0) = 1700000000000 \<and>
     modelIdNow (messageEnv 0 0) = 1700000000001 \<and> modelDate (messageEnv 0 0) = 1700000000001"
    by (simp add: messageEnv_def)
  from C3_turn_complete [OF f, of helloState "messageEnv 0 0" helloState]
    C3_turn_complete [OF f, of activeState "messageEnv 0 0" activeState]
  show ?thesis
    using f h a e toString_example by (simp add: js_def)
qed

section \<open>What the regular expressions match\<close>

lemma canonicalize_lbracket: "canonicalize c = lbracket \<longleftrightarrow> c = lbracket"
  by (auto simp: canonicalize_def lbracket_def)

lemma canonicalize_lbracket': "lbracket = canonicalize c \<longleftrightarrow> c = lbracket"
  by (auto simp: canonicalize_def lbracket_def)

lemma matchLiteral_Some:
  "matchLiteral tag s = Some rest \<Longrightarrow>
   \<exists>m. s = m @ rest \<and> map canonicalize m = map canonicalize tag"
proof (induction tag s rule: matchLiteral.induct)
  case (1 s)
  then show ?case by simp
next
  case (2 p ps)
  then show ?case by simp
next
  case (3 p ps c cs)
  from "3.prems" have eq: "canonicalize p = canonicalize c" and r: "matchLiteral ps cs = Some rest"
    by (auto split: if_splits)
  from "3.IH" [OF eq r] obtain m where "cs = m @ rest" "map canonicalize m = map canonicalize ps"
    by blast
  with eq show ?case by (intro exI [of _ "c # m"]) simp
qed

lemma matchLiteral_append:
  "map canonicalize m = map canonicalize tag \<Longrightarrow> matchLiteral tag (m @ rest) = Some rest"
proof (induction tag arbitrary: m)
  case Nil
  then show ?case by simp
next
  case (Cons p ps)
  then obtain c cs where "m = c # cs" "canonicalize c = canonicalize p"
    "map canonicalize cs = map canonicalize ps" by (cases m) auto
  with Cons.IH [of cs] show ?case by simp
qed

lemma lazyDot_Some:
  "lazyDot s = Some c \<Longrightarrow>
   \<exists>post. s = c @ post \<and> lbracket \<notin> set c \<and> (\<forall>x \<in> set c. \<not> isLineTerminator x) \<and>
          (post = [] \<or> hd post = lbracket)"
proof (induction s arbitrary: c)
  case Nil
  then show ?case by simp
next
  case (Cons a s)
  show ?case
  proof (cases "a = lbracket")
    case True
    with Cons.prems show ?thesis by simp
  next
    case False
    with Cons.prems obtain c' where nl: "\<not> isLineTerminator a" and c': "lazyDot s = Some c'"
      and c: "c = a # c'" by (auto split: if_splits)
    from Cons.IH [OF c'] obtain post where "s = c' @ post" "lbracket \<notin> set c'"
      "\<forall>x \<in> set c'. \<not> isLineTerminator x" "post = [] \<or> hd post = lbracket" by blast
    with False nl c show ?thesis by (intro exI [of _ post]) auto
  qed
qed

lemma lazyDot_append:
  "lbracket \<notin> set c \<Longrightarrow> \<forall>x \<in> set c. \<not> isLineTerminator x \<Longrightarrow> post = [] \<or> hd post = lbracket \<Longrightarrow>
   lazyDot (c @ post) = Some c"
proof (induction c)
  case Nil
  then show ?case by (cases post) auto
next
  case (Cons a c)
  then show ?case by simp
qed


lemma matchAt_Some:
  "matchAt tag s = Some c \<longleftrightarrow>
   (\<exists>m post. s = m @ c @ post \<and> map canonicalize m = map canonicalize tag \<and>
      lbracket \<notin> set c \<and> (\<forall>x \<in> set c. \<not> isLineTerminator x) \<and>
      (post = [] \<or> hd post = lbracket))"
proof
  assume "matchAt tag s = Some c"
  then obtain rest where r: "matchLiteral tag s = Some rest" and l: "lazyDot rest = Some c"
    by (auto simp: matchAt_def split: option.splits)
  from matchLiteral_Some [OF r] obtain m where m: "s = m @ rest"
    "map canonicalize m = map canonicalize tag" by blast
  from lazyDot_Some [OF l] obtain post where "rest = c @ post" "lbracket \<notin> set c"
    "\<forall>x \<in> set c. \<not> isLineTerminator x" "post = [] \<or> hd post = lbracket" by blast
  with m show "\<exists>m post. s = m @ c @ post \<and> map canonicalize m = map canonicalize tag \<and>
      lbracket \<notin> set c \<and> (\<forall>x \<in> set c. \<not> isLineTerminator x) \<and>
      (post = [] \<or> hd post = lbracket)" by blast
next
  assume "\<exists>m post. s = m @ c @ post \<and> map canonicalize m = map canonicalize tag \<and>
      lbracket \<notin> set c \<and> (\<forall>x \<in> set c. \<not> isLineTerminator x) \<and>
      (post = [] \<or> hd post = lbracket)"
  then obtain m post where s: "s = m @ c @ post" and m: "map canonicalize m = map canonicalize tag"
    and c: "lbracket \<notin> set c" "\<forall>x \<in> set c. \<not> isLineTerminator x" "post = [] \<or> hd post = lbracket"
    by blast
  from matchLiteral_append [OF m, of "c @ post"] lazyDot_append [OF c] s
  show "matchAt tag s = Some c" by (simp add: matchAt_def)
qed

text \<open>The match of the whole text is the match at its leftmost start position that has one.\<close>

lemma regexMatch_Some:
  "regexMatch tag s = Some c \<longleftrightarrow>
   (\<exists>pre suf. s = pre @ suf \<and> matchAt tag suf = Some c \<and>
      (\<forall>k < length pre. matchAt tag (drop k s) = None))"
proof (induction s)
  case Nil
  show ?case by auto
next
  case (Cons a s)
  show ?case
  proof (cases "matchAt tag (a # s)")
    case (Some c')
    have "(\<exists>pre suf. a # s = pre @ suf \<and> matchAt tag suf = Some c \<and>
      (\<forall>k < length pre. matchAt tag (drop k (a # s)) = None)) \<longleftrightarrow> c' = c"
    proof
      assume "\<exists>pre suf. a # s = pre @ suf \<and> matchAt tag suf = Some c \<and>
        (\<forall>k < length pre. matchAt tag (drop k (a # s)) = None)"
      then obtain pre suf where p: "a # s = pre @ suf" "matchAt tag suf = Some c"
        "\<forall>k < length pre. matchAt tag (drop k (a # s)) = None" by blast
      show "c' = c"
      proof (cases pre)
        case Nil
        with p Some show ?thesis by simp
      next
        case (Cons b pre')
        with p(3) have "matchAt tag (drop 0 (a # s)) = None" by (metis length_greater_0_conv list.distinct(1))
        with Some show ?thesis by simp
      qed
    next
      assume "c' = c"
      with Some show "\<exists>pre suf. a # s = pre @ suf \<and> matchAt tag suf = Some c \<and>
        (\<forall>k < length pre. matchAt tag (drop k (a # s)) = None)"
        by (intro exI [of _ "[]"] exI [of _ "a # s"]) simp
    qed
    with Some show ?thesis by simp
  next
    case None
    have "(\<exists>pre suf. a # s = pre @ suf \<and> matchAt tag suf = Some c \<and>
        (\<forall>k < length pre. matchAt tag (drop k (a # s)) = None)) \<longleftrightarrow>
      (\<exists>pre suf. s = pre @ suf \<and> matchAt tag suf = Some c \<and>
        (\<forall>k < length pre. matchAt tag (drop k s) = None))"
    proof
      assume "\<exists>pre suf. a # s = pre @ suf \<and> matchAt tag suf = Some c \<and>
        (\<forall>k < length pre. matchAt tag (drop k (a # s)) = None)"
      then obtain pre suf where p: "a # s = pre @ suf" "matchAt tag suf = Some c"
        "\<forall>k < length pre. matchAt tag (drop k (a # s)) = None" by blast
      from p(1,2) None obtain pre' where pre: "pre = a # pre'" by (cases pre) auto
      with p(1) have s: "s = pre' @ suf" by simp
      have "\<forall>k < length pre'. matchAt tag (drop k s) = None"
      proof (intro allI impI)
        fix k assume "k < length pre'"
        with pre have "Suc k < length pre" by simp
        with p(3) have "matchAt tag (drop (Suc k) (a # s)) = None" by blast
        then show "matchAt tag (drop k s) = None" by simp
      qed
      with s p(2) show "\<exists>pre suf. s = pre @ suf \<and> matchAt tag suf = Some c \<and>
        (\<forall>k < length pre. matchAt tag (drop k s) = None)" by blast
    next
      assume "\<exists>pre suf. s = pre @ suf \<and> matchAt tag suf = Some c \<and>
        (\<forall>k < length pre. matchAt tag (drop k s) = None)"
      then obtain pre suf where p: "s = pre @ suf" "matchAt tag suf = Some c"
        "\<forall>k < length pre. matchAt tag (drop k s) = None" by blast
      have "\<forall>k < length (a # pre). matchAt tag (drop k (a # s)) = None"
      proof (intro allI impI)
        fix k assume k: "k < length (a # pre)"
        show "matchAt tag (drop k (a # s)) = None"
        proof (cases k)
          case 0
          with None show ?thesis by simp
        next
          case (Suc j)
          with k p(3) show ?thesis by simp
        qed
      qed
      with p(1,2) show "\<exists>pre suf. a # s = pre @ suf \<and> matchAt tag suf = Some c \<and>
        (\<forall>k < length pre. matchAt tag (drop k (a # s)) = None)"
        by (intro exI [of _ "a # pre"] exI [of _ suf]) simp
    qed
    with None Cons.IH show ?thesis by simp
  qed
qed


lemma containsTag_iff:
  "containsTag tag s \<longleftrightarrow>
   (\<exists>pre m post. s = pre @ m @ post \<and> map canonicalize m = map canonicalize tag)"
proof
  assume "containsTag tag s"
  then obtain ps ss where "map canonicalize s = ps @ (map canonicalize tag @ ss)"
    unfolding containsTag_def sublist_def by blast
  then have "\<exists>us vs. s = us @ vs \<and> ps = map canonicalize us \<and>
      map canonicalize tag @ ss = map canonicalize vs"
    by (simp only: map_eq_append_conv)
  then obtain pre r where s: "s = pre @ r" and r: "map canonicalize r = map canonicalize tag @ ss"
    by auto
  from r have "\<exists>us vs. r = us @ vs \<and> map canonicalize tag = map canonicalize us \<and>
      ss = map canonicalize vs"
    by (simp only: map_eq_append_conv)
  then obtain m post where "r = m @ post" "map canonicalize m = map canonicalize tag"
    by auto
  with s show "\<exists>pre m post. s = pre @ m @ post \<and> map canonicalize m = map canonicalize tag"
    by blast
next
  assume "\<exists>pre m post. s = pre @ m @ post \<and> map canonicalize m = map canonicalize tag"
  then obtain pre m post where "s = pre @ m @ post" "map canonicalize m = map canonicalize tag"
    by blast
  then have "map canonicalize s = map canonicalize pre @ map canonicalize tag @ map canonicalize post"
    by simp
  then show "containsTag tag s"
    unfolding containsTag_def sublist_def
    by (intro exI [of _ "map canonicalize pre"] exI [of _ "map canonicalize post"])
qed

lemma regexMatch_containsTag:
  assumes "regexMatch tag s = Some c"
  shows "containsTag tag s"
proof -
  from assms obtain pre suf where s: "s = pre @ suf" and m: "matchAt tag suf = Some c"
    by (auto simp: regexMatch_Some)
  from m obtain m' post where "suf = m' @ c @ post" "map canonicalize m' = map canonicalize tag"
    by (auto simp: matchAt_Some)
  with s show ?thesis unfolding containsTag_iff by blast
qed


lemma classify_None:
  "classify s = None \<longleftrightarrow>
   regexMatch grammarTag s = None \<and> regexMatch pronunciationTag s = None \<and>
   regexMatch naturalTag s = None"
  by (simp add: classify_def split: option.splits)


lemma onmessage_fst:
  "fst (onmessage env m s) = fst (handleAudio env m s)"
  by (cases "handleAudio env m s")
     (auto simp: onmessage_def handleInterrupted_def interruptedBody_eq split: option.splits)

lemma latestFeedback_others:
  "latestFeedback (snd (handleAudio env m s)) = latestFeedback s \<and>
   latestFeedback (handleInputTranscription m s) = latestFeedback s \<and>
   latestFeedback (handleTurnComplete env m s) = latestFeedback s \<and>
   latestFeedback (snd (handleInterrupted m s)) = latestFeedback s"
  by (simp add: handleAudio_def scheduleBegin_def scheduleResume_def Let_def
        handleInputTranscription_def handleTurnComplete_def turnCompleteBody_def
        handleInterrupted_def interruptedBody_eq split: sum.splits option.splits)

lemma currentModelTextRef_before_output:
  "currentModelTextRef (handleInputTranscription m (snd (handleAudio env m s))) = currentModelTextRef s"
  by (simp add: handleAudio_def scheduleBegin_def scheduleResume_def Let_def
        handleInputTranscription_def split: sum.splits option.splits)

text \<open>
  C8. When a message carries a model-transcript delta and the accumulated model text,
  the delta included, contains none of the three tag markers in any letter case, the
  classifier finds nothing: the accumulator takes the delta, the latest feedback stays as
  it was, both after the transcription branch and after the whole of \<open>onmessage\<close>,
  and \<open>onmessage\<close> throws only if its audio part does.
\<close>

theorem C8_no_marker:
  assumes "transcriptionOf outputTranscription m = Some t"
    and "\<not> containsTag grammarTag (currentModelTextRef s @ deltaText t)"
    and "\<not> containsTag pronunciationTag (currentModelTextRef s @ deltaText t)"
    and "\<not> containsTag naturalTag (currentModelTextRef s @ deltaText t)"
  shows "classify (currentModelTextRef s @ deltaText t) = None \<and>
    currentModelTextRef (handleOutputTranscription m s) = currentModelTextRef s @ deltaText t \<and>
    latestFeedback (handleOutputTranscription m s) = latestFeedback s \<and>
    fst (onmessage env m s) = fst (handleAudio env m s) \<and>
    latestFeedback (snd (onmessage env m s)) = latestFeedback s"
proof -
  let ?acc = "currentModelTextRef s @ deltaText t"
  have none: "classify ?acc = None"
  proof -
    have "regexMatch tag (?acc) = None" if "\<not> containsTag tag ?acc" for tag
      using that regexMatch_containsTag [of tag ?acc] by (cases "regexMatch tag ?acc") auto
    with assms(2-4) show ?thesis unfolding classify_None by blast
  qed
  have out: "latestFeedback (handleOutputTranscription m s') = latestFeedback s'"
    if "currentModelTextRef s' = currentModelTextRef s" for s'
    using none assms(1) that by (simp add: handleOutputTranscription_def Let_def)
  have acc: "currentModelTextRef (handleOutputTranscription m s) = ?acc"
    using none assms(1) by (simp add: handleOutputTranscription_def Let_def)
  let ?s2 = "handleInputTranscription m (snd (handleAudio env m s))"
  have "latestFeedback ?s2 = latestFeedback s"
    using latestFeedback_others [of env m s] latestFeedback_others [of env m "snd (handleAudio env m s)"]
    by simp
  moreover have "latestFeedback (handleOutputTranscription m ?s2) = latestFeedback ?s2"
    using out [OF currentModelTextRef_before_output] .
  ultimately have whole: "latestFeedback (snd (onmessage env m s)) = latestFeedback s"
    using latestFeedback_others [of env m s]
      latestFeedback_others [of env m "handleOutputTranscription m ?s2"]
      latestFeedback_others [of env m "handleTurnComplete env m (handleOutputTranscription m ?s2)"]
    by (simp add: onmessage_snd split: option.splits)
  from none acc out [of s] whole onmessage_fst [of env m s] show ?thesis by simp
qed

theorem C8_no_marker_witness:
  "transcriptionOf outputTranscription (outputMessage (js ''That is great''))
     = Some (Some (js ''That is great'')) \<and>
   \<not> containsTag grammarTag (js ''Good. That is great'') \<and>
   \<not> containsTag pronunciationTag (js ''Good. That is great'') \<and>
   \<not> containsTag naturalTag (js ''Good. That is great'') \<and>
   classify (js ''Good. That is great'') = None \<and>
   latestFeedback
     (snd (onmessage (messageEnv 0 0) (outputMessage (js ''That is great''))
        (activeState\<lparr>currentModelTextRef := js ''Good. '',
           latestFeedback := Some \<lparr>category = Grammar, feedbackText = js ''Use the.''\<rparr>\<rparr>)))
     = Some \<lparr>category = Grammar, feedbackText = js ''Use the.''\<rparr>"
proof -
  let ?s = "activeState\<lparr>currentModelTextRef := js ''Good. '',
           latestFeedback := Some \<lparr>category = Grammar, feedbackText = js ''Use the.''\<rparr>\<rparr>"
  let ?m = "outputMessage (js ''That is great'')"
  have t: "transcriptionOf outputTranscription ?m = Some (Some (js ''That is great''))"
    by (simp add: transcriptionOf_def fixture_defs)
  have acc: "currentModelTextRef ?s @ deltaText (Some (js ''That is great'')) = js ''Good. That is great''"
    by (simp add: deltaText_def js_def)
  have g: "\<not> containsTag grammarTag (js ''Good. That is great'')"
    by (simp add: containsTag_def grammarTag_def js_def canonicalize_def sublist_code prefix_code)
  have p: "\<not> containsTag pronunciationTag (js ''Good. That is great'')"
    by (simp add: containsTag_def pronunciationTag_def js_def canonicalize_def sublist_code prefix_code)
  have n: "\<not> containsTag naturalTag (js ''Good. That is great'')"
    by (simp add: containsTag_def naturalTag_def js_def canonicalize_def sublist_code prefix_code)
  from C8_no_marker [of ?m "Some (js ''That is great'')" ?s "messageEnv 0 0"] t g p n acc
  show ?thesis by simp
qed

section \<open>The classifier\<close>







section \<open>Letter case of the markers\<close>





lemma matchAt_Cons_Nil: "matchAt (p # ps) [] = None"
  by (simp add: matchAt_def)




























section \<open>Rounding to double precision\<close>











































lemma overlap_02_15:
  "(7656119366529843 / 4503599627370496 :: real) < 3602879701896397 / 18014398509481984 + 3 / 2"
  by simp





section \<open>Interruption of playback\<close>

lemma onmessage_afterAudio:
  "onmessage env m s =
     (case handleAudio env m s of
        (Some e, s1) \<Rightarrow> (Some e, s1)
      | (None, s1) \<Rightarrow> afterAudio env m s1)"
  by (simp add: onmessage_def afterAudio_def split: prod.splits option.splits)

lemma before_interruption_frame:
  "sourcesRef (handleTurnComplete env m (handleOutputTranscription m (handleInputTranscription m s)))
     = sourcesRef s \<and>
   sourceNodes (handleTurnComplete env m (handleOutputTranscription m (handleInputTranscription m s)))
     = sourceNodes s \<and>
   nextStartTimeRef (handleTurnComplete env m (handleOutputTranscription m (handleInputTranscription m s)))
     = nextStartTimeRef s"
  by (simp add: handleTurnComplete_def turnCompleteBody_def handleOutputTranscription_def
        handleInputTranscription_def Let_def split: option.splits)


lemma tracked_afterAudio: "tracked s \<Longrightarrow> tracked (snd (afterAudio env m s))"
  unfolding afterAudio_def
  by (intro tracked_handleInterrupted tracked_handleTurnComplete tracked_handleOutputTranscription
        tracked_handleInputTranscription)

lemma tracked_scheduleSteps: "tracked s \<Longrightarrow> tracked (scheduleSteps es s)"
proof (induction es arbitrary: s)
  case Nil
  then show ?case by simp
next
  case (Cons e es)
  then show ?case
    by (cases e)
      (simp_all add: tracked_scheduleBegin tracked_scheduleResume tracked_afterAudio
         tracked_sourceEnded)
qed

lemma tracked_playingState: "tracked playingState"
  unfolding playingState_def
  by (intro tracked_onmessage tracked_activeState)

lemma playingState_tracked_set:
  "sourcesRef playingState = [0, 1] \<and> length (sourceNodes playingState) = 2"
  by (simp add: playingState_def fixture_defs activeState_eq initialState_def onmessage_def
        handleAudio_def audioDataOf_def truthy_def js_def scheduleBegin_def scheduleResume_def
        setAdd_def Let_def handleInputTranscription_def handleOutputTranscription_def
        transcriptionOf_def handleTurnComplete_def handleInterrupted_def flagOf_def)

lemma interruption_branch:
  assumes "flagOf interrupted m"
  shows "fst (handleInterrupted m s) = None \<and>
   sourcesRef (snd (handleInterrupted m s)) = [] \<and>
   nextStartTimeRef (snd (handleInterrupted m s)) = 0 \<and>
   length (sourceNodes (snd (handleInterrupted m s))) = length (sourceNodes s) \<and>
   (tracked s \<longrightarrow>
      (\<forall>h \<in> set (sourcesRef s). stopCalled (sourceNodes (snd (handleInterrupted m s)) ! h)))"
  using assms
  by (auto simp: handleInterrupted_def interruptedBody_eq forEach_tryStop_length
        forEach_tryStop_nth tracked_def list_all_iff)

lemma interruption_rest:
  assumes "flagOf interrupted m"
  shows "fst (afterAudio env m s) = None \<and>
   sourcesRef (snd (afterAudio env m s)) = [] \<and>
   nextStartTimeRef (snd (afterAudio env m s)) = 0 \<and>
   (tracked s \<longrightarrow>
      (\<forall>h \<in> set (sourcesRef s). stopCalled (sourceNodes (snd (afterAudio env m s)) ! h)))"
proof -
  let ?pre = "handleTurnComplete env m (handleOutputTranscription m (handleInputTranscription m s))"
  have t: "tracked ?pre" if "tracked s"
    using that
    by (intro tracked_handleTurnComplete tracked_handleOutputTranscription
          tracked_handleInputTranscription)
  from interruption_branch [OF assms, of ?pre] before_interruption_frame [of env m s] t
  show ?thesis by (simp add: afterAudio_def)
qed

text \<open>
  Claim C5. When a message carries the interruption signal, the interruption branch of
  \<open>onmessage\<close> completes without an exception from any state (an exception of
  \<open>stop\<close> is caught in the loop), \<open>stop\<close> has then been called on every node that
  was tracked, the tracked set is empty and the scheduling clock is 0. The same holds of
  the statements behind the audio part in whatever state the handler resumes there, and of
  the whole handler whenever its audio part does not throw, the buffer that this very
  message scheduled included. When the audio part throws (a model turn without
  \<open>parts\<close>, or a buffer that cannot be decoded), the handler ends with that exception
  before it reaches the interruption branch.
\<close>

theorem C5_interruption:
  "flagOf interrupted m \<Longrightarrow>
   (fst (handleInterrupted m s) = None \<and>
    sourcesRef (snd (handleInterrupted m s)) = [] \<and>
    nextStartTimeRef (snd (handleInterrupted m s)) = 0 \<and>
    length (sourceNodes (snd (handleInterrupted m s))) = length (sourceNodes s) \<and>
    (tracked s \<longrightarrow>
       (\<forall>h \<in> set (sourcesRef s). stopCalled (sourceNodes (snd (handleInterrupted m s)) ! h)))) \<and>
   (fst (afterAudio env m s) = None \<and>
    sourcesRef (snd (afterAudio env m s)) = [] \<and>
    nextStartTimeRef (snd (afterAudio env m s)) = 0 \<and>
    (tracked s \<longrightarrow>
       (\<forall>h \<in> set (sourcesRef s). stopCalled (sourceNodes (snd (afterAudio env m s)) ! h)))) \<and>
   (fst (handleAudio env m s) = None \<longrightarrow>
      fst (onmessage env m s) = None \<and>
      sourcesRef (snd (onmessage env m s)) = [] \<and>
      nextStartTimeRef (snd (onmessage env m s)) = 0 \<and>
      (tracked s \<longrightarrow>
         (\<forall>h \<in> set (sourcesRef (snd (handleAudio env m s))).
            stopCalled (sourceNodes (snd (onmessage env m s)) ! h)))) \<and>
   (fst (handleAudio env m s) \<noteq> None \<longrightarrow> onmessage env m s = handleAudio env m s)"
proof -
  assume f: "flagOf interrupted m"
  have whole: "fst (onmessage env m s) = None \<and>
      sourcesRef (snd (onmessage env m s)) = [] \<and>
      nextStartTimeRef (snd (onmessage env m s)) = 0 \<and>
      (tracked s \<longrightarrow>
         (\<forall>h \<in> set (sourcesRef (snd (handleAudio env m s))).
            stopCalled (sourceNodes (snd (onmessage env m s)) ! h)))"
    if a: "fst (handleAudio env m s) = None"
  proof -
    from a have o: "onmessage env m s = afterAudio env m (snd (handleAudio env m s))"
      by (cases "handleAudio env m s") (simp add: onmessage_afterAudio)
    from interruption_rest [OF f, of env "snd (handleAudio env m s)"]
      tracked_handleAudio [of s env m] o
    show ?thesis by simp
  qed
  have thrown: "onmessage env m s = handleAudio env m s" if "fst (handleAudio env m s) \<noteq> None"
    using that by (cases "handleAudio env m s") (auto simp: onmessage_def)
  from interruption_branch [OF f, of s] interruption_rest [OF f, of env s] whole thrown
  show ?thesis by blast
qed

theorem C5_interruption_witness:
  "flagOf interrupted interruptedAudioMessage \<and>
   tracked playingState \<and>
   sourcesRef playingState = [0, 1] \<and>
   fst (handleAudio (messageEnv 1 1) interruptedAudioMessage playingState) = None \<and>
   sourcesRef (snd (handleAudio (messageEnv 1 1) interruptedAudioMessage playingState)) = [0, 1, 2] \<and>
   fst (onmessage (messageEnv 1 1) interruptedAudioMessage playingState) = None \<and>
   sourcesRef (snd (onmessage (messageEnv 1 1) interruptedAudioMessage playingState)) = [] \<and>
   nextStartTimeRef (snd (onmessage (messageEnv 1 1) interruptedAudioMessage playingState)) = 0 \<and>
   stopCalled (sourceNodes (snd (onmessage (messageEnv 1 1) interruptedAudioMessage playingState)) ! 0) \<and>
   stopCalled (sourceNodes (snd (onmessage (messageEnv 1 1) interruptedAudioMessage playingState)) ! 1) \<and>
   stopCalled (sourceNodes (snd (onmessage (messageEnv 1 1) interruptedAudioMessage playingState)) ! 2) \<and>
   flagOf interrupted interruptedBrokenMessage \<and>
   fst (onmessage (messageEnv 1 1) interruptedBrokenMessage playingState) = Some TypeError \<and>
   sourcesRef (snd (onmessage (messageEnv 1 1) interruptedBrokenMessage playingState)) = [0, 1]"
proof -
  have f: "flagOf interrupted interruptedAudioMessage"
    by (simp add: flagOf_def fixture_defs)
  have g: "flagOf interrupted interruptedBrokenMessage"
    by (simp add: flagOf_def fixture_defs)
  have a: "fst (handleAudio (messageEnv 1 1) interruptedAudioMessage playingState) = None \<and>
     sourcesRef (snd (handleAudio (messageEnv 1 1) interruptedAudioMessage playingState)) = [0, 1, 2]"
    using playingState_tracked_set
    by (simp add: handleAudio_def audioDataOf_def fixture_defs truthy_def js_def scheduleBegin_def
          scheduleResume_def setAdd_def Let_def playingState_def onmessage_def activeState_eq
          initialState_def handleInputTranscription_def handleOutputTranscription_def
          transcriptionOf_def handleTurnComplete_def handleInterrupted_def flagOf_def)
  have b: "handleAudio (messageEnv 1 1) interruptedBrokenMessage playingState =
     (Some TypeError, playingState)"
    by (simp add: handleAudio_def audioDataOf_def fixture_defs)
  from C5_interruption [OF g, of playingState "messageEnv 1 1"] b playingState_tracked_set
  have broken: "fst (onmessage (messageEnv 1 1) interruptedBrokenMessage playingState) = Some TypeError \<and>
     sourcesRef (snd (onmessage (messageEnv 1 1) interruptedBrokenMessage playingState)) = [0, 1]"
    by simp
  from C5_interruption [OF f, of playingState "messageEnv 1 1"] f a tracked_playingState
    playingState_tracked_set
  have "fst (onmessage (messageEnv 1 1) interruptedAudioMessage playingState) = None \<and>
   sourcesRef (snd (onmessage (messageEnv 1 1) interruptedAudioMessage playingState)) = [] \<and>
   nextStartTimeRef (snd (onmessage (messageEnv 1 1) interruptedAudioMessage playingState)) = 0 \<and>
   stopCalled (sourceNodes (snd (onmessage (messageEnv 1 1) interruptedAudioMessage playingState)) ! 0) \<and>
   stopCalled (sourceNodes (snd (onmessage (messageEnv 1 1) interruptedAudioMessage playingState)) ! 1) \<and>
   stopCalled (sourceNodes (snd (onmessage (messageEnv 1 1) interruptedAudioMessage playingState)) ! 2)"
    by simp
  with f g a tracked_playingState playingState_tracked_set broken show ?thesis by simp
qed

section \<open>Playback scheduling\<close>














section \<open>Starting a session\<close>

lemma stoppedWhilePending_eq:
  "status stoppedWhilePending = ACTIVE \<and> isLanding stoppedWhilePending \<and>
   inputAudioContextRef stoppedWhilePending = None"
  by (simp add: stoppedWhilePending_def onopen_def startSessionResume_def stopSession_def
        cleanupAudio_eq startSession_def startOk_def initialState_def Let_def
        closeContext_def disconnectProcessor_def newContext_def)

lemma stoppedWhilePending_steps:
  "fst (startSession startOk initialState) = None \<and>
   \<not> startButtonShown (snd (startSession startOk initialState)) \<and>
   fst (stopSession (snd (startSession startOk initialState))) = None \<and>
   fst (startSessionResume True True
     (snd (stopSession (snd (startSession startOk initialState))))) = None \<and>
   fst (onopen (snd (startSessionResume True True
     (snd (stopSession (snd (startSession startOk initialState))))))) = Some TypeError"
  by (simp add: onopen_def startSessionResume_def stopSession_def cleanupAudio_eq startSession_def
        startOk_def initialState_def Let_def startButtonShown_def closeContext_def
        disconnectProcessor_def newContext_def)

text \<open>
  Claim C2. \<open>startSession\<close> has no guard on the status, and a run of the application
  reaches it with the status \<open>ACTIVE\<close>: from the initial state the user starts a
  session (status \<open>CONNECTING\<close>, the landing page and its start button gone), and
  ends the lesson while the request for the microphone is pending (status \<open>IDLE\<close>,
  the audio contexts closed and their refs null); the microphone is then granted, the
  resumed \<open>startSession\<close> connects, and \<open>onopen\<close> sets the status to
  \<open>ACTIVE\<close> before it throws on the null input context. The landing page with the
  start button is shown in this state, and \<open>startSession\<close> called from it is not
  rejected: it completes, sets the status to \<open>CONNECTING\<close> and creates two new
  audio contexts.
\<close>

theorem C2_start_while_active:
  "status initialState = IDLE \<and> startButtonShown initialState \<and>
   fst (startSession startOk initialState) = None \<and>
   status (snd (startSession startOk initialState)) = CONNECTING \<and>
   \<not> startButtonShown (snd (startSession startOk initialState)) \<and>
   fst (stopSession (snd (startSession startOk initialState))) = None \<and>
   status (snd (stopSession (snd (startSession startOk initialState)))) = IDLE \<and>
   fst (startSessionResume True True
     (snd (stopSession (snd (startSession startOk initialState))))) = None \<and>
   fst (onopen (snd (startSessionResume True True
     (snd (stopSession (snd (startSession startOk initialState))))))) = Some TypeError \<and>
   status stoppedWhilePending = ACTIVE \<and>
   inputAudioContextRef stoppedWhilePending = None \<and>
   startButtonShown stoppedWhilePending \<and>
   fst (startSession startOk stoppedWhilePending) = None \<and>
   status (snd (startSession startOk stoppedWhilePending)) = CONNECTING \<and>
   length (audioContexts (snd (startSession startOk stoppedWhilePending))) =
     length (audioContexts stoppedWhilePending) + 2"
proof -
  have first: "status initialState = IDLE \<and> startButtonShown initialState \<and>
     status (snd (startSession startOk initialState)) = CONNECTING \<and>
     status (snd (stopSession (snd (startSession startOk initialState)))) = IDLE"
    by (simp add: stopSession_def cleanupAudio_eq startSession_def startOk_def initialState_def
          Let_def startButtonShown_def)
  have again: "fst (startSession startOk stoppedWhilePending) = None \<and>
     status (snd (startSession startOk stoppedWhilePending)) = CONNECTING \<and>
     length (audioContexts (snd (startSession startOk stoppedWhilePending))) =
       length (audioContexts stoppedWhilePending) + 2"
    by (simp add: startSession_def startOk_def Let_def)
  from first again stoppedWhilePending_steps stoppedWhilePending_eq show ?thesis
    by (simp add: startButtonShown_def)
qed

section \<open>PCM encoding of a sample\<close>






end
